theory Spec2Isabelle
  imports Main "HOL-Library.Word"
begin

section \<open>The message slot driver: data model\<close>

text \<open>
  The driver keeps one global singly linked list of slots (\<open>slot_list_head\<close>), one slot
  per minor number; every slot owns a singly linked list of channels. Both lists grow at
  the head and are searched from the head, so they are modelled as HOL lists in list
  order. A C \<open>char\<close> is a \<^typ>\<open>char\<close>, \<open>unsigned int\<close> is a \<^typ>\<open>32 word\<close>,
  \<open>unsigned long\<close> a \<^typ>\<open>64 word\<close>. Lengths (\<open>size_t\<close>) are natural numbers: the
  driver only compares them, and the one loop that counts (\<open>i += 3\<close>) runs below a length
  that has already been checked to be at most \<open>MAX_MESSAGE_LENGTH\<close>.
\<close>

definition MAX_MESSAGE_LENGTH :: nat where
  \<comment> \<open>\<open>#define MAX_MESSAGE_LENGTH 128\<close> in the header \<open>message_slot.h\<close>.\<close>
  "MAX_MESSAGE_LENGTH = 128"

record channel =
  id_ch :: "32 word"
  message :: string
  message_length :: nat

record slot =
  minor :: "32 word"
  channels :: "channel list"

record fd_state =
  channel_id :: "32 word"
  censorship_enabled :: int

text \<open>
  Of \<open>struct file\<close> the driver uses the minor number of the inode behind it
  (\<open>iminor(file_inode(file))\<close>) and the \<open>private_data\<close> pointer, which is either
  \<open>NULL\<close> or the descriptor state allocated by \<open>device_open\<close>.
\<close>

record struct_file =
  f_minor :: "32 word"
  private_data :: "fd_state option"

datatype errno = EINVAL | ENOMEM | EMSGSIZE | EFAULT | EWOULDBLOCK | ENOSPC

text \<open>
  A user-space pointer is \<open>NULL\<close>, or points to memory the kernel cannot access, or to an
  accessible region with the given contents. \<open>copy_from_user\<close> and \<open>copy_to_user\<close>
  succeed exactly when the requested number of bytes lies inside the region;
  \<open>copy_to_user\<close> yields the new contents of the region.
\<close>

datatype user_ptr = NULL | Unmapped | Mapped string

fun copy_from_user :: "user_ptr \<Rightarrow> nat \<Rightarrow> string option" where
  "copy_from_user (Mapped bs) n = (if n \<le> length bs then Some (take n bs) else None)"
| "copy_from_user _ n = None"

fun copy_to_user :: "user_ptr \<Rightarrow> string \<Rightarrow> nat \<Rightarrow> string option" where
  "copy_to_user (Mapped bs) src n =
     (if n \<le> length bs then Some (take n src @ drop n bs) else None)"
| "copy_to_user _ src n = None"

text \<open>
  The outcomes of \<open>kmalloc\<close> are inputs of the model. A new \<open>channel_t\<close> comes
  uninitialised: \<open>kmalloc_channel\<close> is \<open>None\<close> when the allocation fails and otherwise
  gives the bytes that happen to lie in the new \<open>message\<close> array.
\<close>

record open_env =
  kmalloc_slot :: bool
  kmalloc_state :: bool

record write_env =
  kmalloc_channel :: "(nat \<Rightarrow> char) option"
  kmalloc_kbuf :: bool

section \<open>The list searches\<close>

fun find_slot :: "slot list \<Rightarrow> 32 word \<Rightarrow> slot option" where
  "find_slot [] m = None"
| "find_slot (sl # rest) m = (if minor sl = m then Some sl else find_slot rest m)"

fun find_channel :: "channel list \<Rightarrow> 32 word \<Rightarrow> channel option" where
  "find_channel [] c = None"
| "find_channel (ch # rest) c = (if id_ch ch = c then Some ch else find_channel rest c)"

text \<open>
  The driver writes through the pointer its search returned; in the model the node the
  search stops at (the first one with the key) is replaced.
\<close>

fun update_slot :: "slot list \<Rightarrow> 32 word \<Rightarrow> (slot \<Rightarrow> slot) \<Rightarrow> slot list" where
  "update_slot [] m g = []"
| "update_slot (sl # rest) m g =
     (if minor sl = m then g sl # rest else sl # update_slot rest m g)"

fun update_channel :: "channel list \<Rightarrow> 32 word \<Rightarrow> (channel \<Rightarrow> channel) \<Rightarrow> channel list" where
  "update_channel [] c g = []"
| "update_channel (ch # rest) c g =
     (if id_ch ch = c then g ch # rest else ch # update_channel rest c g)"

section \<open>device\_open, device\_release, device\_ioctl\<close>

definition open_state :: "slot list \<Rightarrow> open_env \<Rightarrow> struct_file \<Rightarrow> slot list \<times> (errno + struct_file)" where
  "open_state s env fl =
     (if \<not> kmalloc_state env then (s, Inl ENOMEM)
      else (s, Inr (fl\<lparr>private_data := Some \<lparr>channel_id = 0, censorship_enabled = 0\<rparr>\<rparr>)))"

definition device_open :: "slot list \<Rightarrow> open_env \<Rightarrow> 32 word \<Rightarrow> struct_file \<Rightarrow> slot list \<times> (errno + struct_file)" where
  "device_open s env inode_minor fl =
     (case find_slot s inode_minor of
        Some sl \<Rightarrow> open_state s env fl
      | None \<Rightarrow>
          if \<not> kmalloc_slot env then (s, Inl ENOMEM)
          else open_state (\<lparr>minor = inode_minor, channels = []\<rparr> # s) env fl)"

definition device_release :: "struct_file option \<Rightarrow> struct_file option" where
  "device_release filp =
     (case filp of
        None \<Rightarrow> None
      | Some fl \<Rightarrow>
          (case private_data fl of
             None \<Rightarrow> Some fl
           | Some st \<Rightarrow> Some (fl\<lparr>private_data := None\<rparr>)))"

datatype ioctl_cmd = MSG_SLOT_CHANNEL | MSG_SLOT_SET_CEN | OTHER_CMD "32 word"
  \<comment> \<open>The header \<open>message_slot.h\<close> defines the two commands as
      \<open>_IOW(MAJOR_NUM, 0, unsigned int)\<close> and \<open>_IOW(MAJOR_NUM, 1, unsigned int)\<close>, two
      different numbers computed by the kernel's \<open>_IOW\<close>; they are the two named
      constructors, and every other number takes the \<open>default\<close> branch.\<close>

definition device_ioctl :: "struct_file option \<Rightarrow> ioctl_cmd \<Rightarrow> 64 word \<Rightarrow> errno + struct_file" where
  "device_ioctl filp ioctl_command_id ioctl_param =
     (case filp of
        None \<Rightarrow> Inl EINVAL
      | Some fl \<Rightarrow>
          (case private_data fl of
             None \<Rightarrow> Inl EINVAL
           | Some st \<Rightarrow>
               (case ioctl_command_id of
                  MSG_SLOT_CHANNEL \<Rightarrow>
                    if ioctl_param = 0 then Inl EINVAL
                    else Inr (fl\<lparr>private_data := Some (st\<lparr>channel_id := ucast ioctl_param\<rparr>)\<rparr>)
                | MSG_SLOT_SET_CEN \<Rightarrow>
                    if ioctl_param \<noteq> 0 \<and> ioctl_param \<noteq> 1 then Inl EINVAL
                    else Inr (fl\<lparr>private_data := Some (st\<lparr>censorship_enabled := uint ioctl_param\<rparr>)\<rparr>)
                | OTHER_CMD n \<Rightarrow> Inl EINVAL)))"

section \<open>device\_write\<close>

text \<open>The censorship loop \<open>for (i = 2; i < length; i += 3) kbuf[i] = '#';\<close>\<close>

function censor_loop :: "nat \<Rightarrow> nat \<Rightarrow> string \<Rightarrow> string" where
  "censor_loop i len kbuf =
     (if i < len then censor_loop (i + 3) len (kbuf[i := CHR ''#'']) else kbuf)"
  by pat_completeness auto
termination
  by (relation "measure (\<lambda>(i, len, kbuf). len - i)") auto

declare censor_loop.simps [simp del]

definition new_channel :: "32 word \<Rightarrow> (nat \<Rightarrow> char) \<Rightarrow> channel" where
  "new_channel c junk =
     \<lparr>id_ch = c, message = map junk [0 ..< MAX_MESSAGE_LENGTH], message_length = 0\<rparr>"

text \<open>\<open>memcpy(channel->message, kbuf, length); channel->message_length = length;\<close>\<close>

definition store_message :: "string \<Rightarrow> nat \<Rightarrow> channel \<Rightarrow> channel" where
  "store_message kbuf len ch =
     ch\<lparr>message := take len kbuf @ drop len (message ch), message_length := len\<rparr>"

text \<open>
  Find or create the channel: \<open>None\<close> when the channel is missing and cannot be allocated,
  otherwise the slot list, with the new channel at the head of the slot's list if it had
  to be created.
\<close>

definition find_or_create_channel ::
  "slot list \<Rightarrow> slot \<Rightarrow> 32 word \<Rightarrow> write_env \<Rightarrow> slot list option" where
  "find_or_create_channel s sl c env =
     (case find_channel (channels sl) c of
        Some ch \<Rightarrow> Some s
      | None \<Rightarrow>
          (case kmalloc_channel env of
             None \<Rightarrow> None
           | Some junk \<Rightarrow>
               Some (update_slot s (minor sl)
                       (\<lambda>x. x\<lparr>channels := new_channel c junk # channels x\<rparr>))))"

definition device_write ::
  "slot list \<Rightarrow> struct_file option \<Rightarrow> user_ptr \<Rightarrow> nat \<Rightarrow> write_env \<Rightarrow> slot list \<times> (errno + nat)" where
  "device_write s filp buffer len env =
     (case filp of
        None \<Rightarrow> (s, Inl EINVAL)
      | Some fl \<Rightarrow>
     (case private_data fl of
        None \<Rightarrow> (s, Inl EINVAL)
      | Some st \<Rightarrow>
     if buffer = NULL then (s, Inl EINVAL)
     else if channel_id st = 0 then (s, Inl EINVAL)
     else if len = 0 \<or> len > MAX_MESSAGE_LENGTH then (s, Inl EMSGSIZE)
     else
     (case find_slot s (f_minor fl) of
        None \<Rightarrow> (s, Inl EINVAL)
      | Some sl \<Rightarrow>
     (case find_or_create_channel s sl (channel_id st) env of
        None \<Rightarrow> (s, Inl ENOMEM)
      | Some s1 \<Rightarrow>
     if \<not> kmalloc_kbuf env then (s1, Inl ENOMEM)
     else
     (case copy_from_user buffer len of
        None \<Rightarrow> (s1, Inl EFAULT)
      | Some kbuf \<Rightarrow>
          let kbuf' = (if censorship_enabled st \<noteq> 0 then censor_loop 2 len kbuf else kbuf)
          in (update_slot s1 (minor sl)
                (\<lambda>x. x\<lparr>channels :=
                         update_channel (channels x) (channel_id st) (store_message kbuf' len)\<rparr>),
              Inr len))))))"

section \<open>device\_read\<close>

text \<open>
  A read does not assign to any slot or channel; the slot list is returned all the same,
  so that a sequence of calls threads one state. On success the result is the return
  value and the new contents of the caller's buffer.
\<close>

definition device_read ::
  "slot list \<Rightarrow> struct_file option \<Rightarrow> user_ptr \<Rightarrow> nat \<Rightarrow> slot list \<times> (errno + nat \<times> string)" where
  "device_read s filp buffer len =
     (case filp of
        None \<Rightarrow> (s, Inl EINVAL)
      | Some fl \<Rightarrow>
     (case private_data fl of
        None \<Rightarrow> (s, Inl EINVAL)
      | Some st \<Rightarrow>
     if buffer = NULL then (s, Inl EINVAL)
     else if channel_id st = 0 then (s, Inl EINVAL)
     else
     (case find_slot s (f_minor fl) of
        None \<Rightarrow> (s, Inl EINVAL)
      | Some sl \<Rightarrow>
     (case find_channel (channels sl) (channel_id st) of
        None \<Rightarrow> (s, Inl EWOULDBLOCK)
      | Some ch \<Rightarrow>
          if message_length ch = 0 then (s, Inl EWOULDBLOCK)
          else if len < message_length ch then (s, Inl ENOSPC)
          else
            (case copy_to_user buffer (message ch) (message_length ch) of
               None \<Rightarrow> (s, Inl EFAULT)
             | Some ubuf \<Rightarrow> (s, Inr (message_length ch, ubuf)))))))"


section \<open>Reading the model\<close>

text \<open>
  The channel a session addresses: the first slot with the minor number, and in it the
  first channel with the id, as the two searches of \<open>device_read\<close> find them.
\<close>

definition lookup_channel :: "slot list \<Rightarrow> 32 word \<Rightarrow> 32 word \<Rightarrow> channel option" where
  "lookup_channel s m c =
     (case find_slot s m of None \<Rightarrow> None | Some sl \<Rightarrow> find_channel (channels sl) c)"

text \<open>
  The censorship transform in the specification's words: with 0-based indices, the byte
  at every index \<open>i\<close> with \<open>i \<ge> 2\<close> and \<open>(i - 2) mod 3 = 0\<close> becomes \<open>#\<close>, every other
  byte stays.
\<close>

definition censor_spec :: "string \<Rightarrow> string" where
  "censor_spec bs =
     map (\<lambda>i. if 2 \<le> i \<and> (i - 2) mod 3 = 0 then CHR ''#'' else bs ! i) [0 ..< length bs]"

text \<open>The invariant on stored lengths: every channel of every slot holds at most
  \<open>MAX_MESSAGE_LENGTH\<close> bytes.\<close>

definition chan_inv :: "slot list \<Rightarrow> bool" where
  "chan_inv s =
     list_all (\<lambda>sl. list_all (\<lambda>ch. message_length ch \<le> MAX_MESSAGE_LENGTH) (channels sl)) s"

text \<open>
  One call into the driver and what it does to the slot list. \<open>device_ioctl\<close> and
  \<open>device_release\<close> work on the descriptor state only.
\<close>

datatype syscall =
    Open open_env "32 word" struct_file
  | Ioctl "struct_file option" ioctl_cmd "64 word"
  | Write "struct_file option" user_ptr nat write_env
  | Read "struct_file option" user_ptr nat
  | Release "struct_file option"

fun exec :: "slot list \<Rightarrow> syscall \<Rightarrow> slot list" where
  "exec s (Open env m fl) = fst (device_open s env m fl)"
| "exec s (Ioctl filp cmd param) = s"
| "exec s (Write filp buffer len env) = fst (device_write s filp buffer len env)"
| "exec s (Read filp buffer len) = fst (device_read s filp buffer len)"
| "exec s (Release filp) = s"

section \<open>The censorship loop\<close>

lemma censor_loop_length [simp]: "length (censor_loop i len kbuf) = length kbuf"
  by (induction i len kbuf rule: censor_loop.induct) (subst censor_loop.simps, simp)

lemma censor_arith:
  "(i \<le> j \<and> (j - i) mod 3 = 0 \<and> j \<noteq> i) = (i + 3 \<le> j \<and> (j - (i + 3)) mod 3 = (0::nat))"
  by presburger

lemma censor_loop_nth:
  "j < length kbuf \<Longrightarrow> length kbuf = len \<Longrightarrow>
   censor_loop i len kbuf ! j = (if i \<le> j \<and> (j - i) mod 3 = 0 then CHR ''#'' else kbuf ! j)"
proof (induction i len kbuf rule: censor_loop.induct)
  case (1 i len kbuf)
  show ?case
  proof (cases "i < len")
    case True
    have "censor_loop i len kbuf ! j = censor_loop (i + 3) len (kbuf[i := CHR ''#'']) ! j"
      using True by (subst censor_loop.simps) simp
    also have "\<dots> = (if i + 3 \<le> j \<and> (j - (i + 3)) mod 3 = 0 then CHR ''#''
                     else kbuf[i := CHR ''#''] ! j)"
      using "1.IH" [OF True] "1.prems" by simp
    also have "\<dots> = (if i \<le> j \<and> (j - i) mod 3 = 0 then CHR ''#'' else kbuf ! j)"
    proof (cases "j = i")
      case True
      then show ?thesis using "1.prems" by simp
    next
      case False
      then show ?thesis using censor_arith [of i j] by (simp add: nth_list_update_neq) 
    qed
    finally show ?thesis .
  next
    case False
    then show ?thesis using "1.prems" by (subst censor_loop.simps) auto
  qed
qed

section \<open>Searching and updating the lists\<close>

lemma find_slot_minor: "find_slot s m = Some sl \<Longrightarrow> minor sl = m"
  by (induction s) (auto split: if_splits)

lemma find_slot_update_slot:
  assumes "\<And>x. minor (g x) = minor x"
  shows "find_slot (update_slot s m g) m' =
           (if m' = m then map_option g (find_slot s m) else find_slot s m')"
  using assms by (induction s) auto

lemma find_channel_update_channel:
  assumes "\<And>x. id_ch (g x) = id_ch x"
  shows "find_channel (update_channel cs c g) c' =
           (if c' = c then map_option g (find_channel cs c) else find_channel cs c')"
  using assms by (induction cs) auto

lemma id_ch_store_message [simp]: "id_ch (store_message kbuf len ch) = id_ch ch"
  by (simp add: store_message_def)

lemma lookup_add_channel:
  "lookup_channel (update_slot s m (\<lambda>x. x\<lparr>channels := nc # channels x\<rparr>)) m' c' =
     (if m' = m \<and> find_slot s m \<noteq> None \<and> c' = id_ch nc then Some nc else lookup_channel s m' c')"
  by (auto simp: lookup_channel_def find_slot_update_slot split: option.splits)

lemma lookup_store:
  "lookup_channel
     (update_slot s m (\<lambda>x. x\<lparr>channels := update_channel (channels x) c (store_message kbuf len)\<rparr>)) m' c' =
     (if m' = m \<and> c' = c then map_option (store_message kbuf len) (lookup_channel s m c)
      else lookup_channel s m' c')"
  by (auto simp: lookup_channel_def find_slot_update_slot find_channel_update_channel
           split: option.splits)

subsection \<open>Find or create\<close>

lemma find_or_create_cases:
  assumes "find_slot s m = Some sl" "find_or_create_channel s sl c env = Some s1"
  obtains (found) old where "lookup_channel s m c = Some old" "s1 = s"
  | (created) junk where "lookup_channel s m c = None" "kmalloc_channel env = Some junk"
      "s1 = update_slot s m (\<lambda>x. x\<lparr>channels := new_channel c junk # channels x\<rparr>)"
proof -
  have ms: "minor sl = m" using assms(1) by (rule find_slot_minor)
  have lk: "lookup_channel s m c = find_channel (channels sl) c"
    using assms(1) by (simp add: lookup_channel_def)
  show thesis
  proof (cases "find_channel (channels sl) c")
    case None
    with assms(2) obtain junk where "kmalloc_channel env = Some junk"
      "s1 = update_slot s m (\<lambda>x. x\<lparr>channels := new_channel c junk # channels x\<rparr>)"
      by (auto simp: find_or_create_channel_def ms split: option.splits)
    with None lk created show thesis by simp
  next
    case (Some old)
    with assms(2) have "s1 = s" by (simp add: find_or_create_channel_def)
    with Some lk found show thesis by simp
  qed
qed

lemma id_ch_new_channel [simp]: "id_ch (new_channel c junk) = c"
  by (simp add: new_channel_def)

lemma find_or_create_lookup:
  assumes "find_slot s m = Some sl" "find_or_create_channel s sl c env = Some s1"
  shows "\<exists>ch. lookup_channel s1 m c = Some ch"
  using assms
proof (cases rule: find_or_create_cases)
  case (found old)
  then show ?thesis by simp
next
  case (created junk)
  then show ?thesis using assms(1) by (simp add: lookup_add_channel)
qed

lemma find_or_create_frame:
  assumes "find_slot s m = Some sl" "find_or_create_channel s sl c env = Some s1" "(m', c') \<noteq> (m, c)"
  shows "lookup_channel s1 m' c' = lookup_channel s m' c'"
  using assms(1,2)
proof (cases rule: find_or_create_cases)
  case (found old)
  then show ?thesis by simp
next
  case (created junk)
  then show ?thesis using assms(3) by (auto simp add: lookup_add_channel)
qed

lemma find_or_create_slot:
  assumes "find_slot s m = Some sl" "find_or_create_channel s sl c env = Some s1"
  shows "find_slot s1 m' = None \<longleftrightarrow> find_slot s m' = None"
  using assms(1,2)
proof (cases rule: find_or_create_cases)
  case (found old)
  then show ?thesis by simp
next
  case (created junk)
  then show ?thesis by (simp add: find_slot_update_slot)
qed


section \<open>Properties of device\_write and device\_read\<close>

lemma list_all_update_channel:
  "list_all P cs \<Longrightarrow> (\<And>x. P x \<Longrightarrow> P (g x)) \<Longrightarrow> list_all P (update_channel cs c g)"
  by (induction cs) auto

lemma list_all_update_slot:
  "list_all P s \<Longrightarrow> (\<And>x. P x \<Longrightarrow> P (g x)) \<Longrightarrow> list_all P (update_slot s m g)"
  by (induction s) auto

lemma chan_inv_add_channel:
  "chan_inv s \<Longrightarrow> chan_inv (update_slot s m (\<lambda>x. x\<lparr>channels := new_channel c junk # channels x\<rparr>))"
  unfolding chan_inv_def
  by (erule list_all_update_slot) (simp add: new_channel_def)

lemma chan_inv_store:
  "chan_inv s \<Longrightarrow> len \<le> MAX_MESSAGE_LENGTH \<Longrightarrow>
   chan_inv (update_slot s m
     (\<lambda>x. x\<lparr>channels := update_channel (channels x) c (store_message kbuf len)\<rparr>))"
  unfolding chan_inv_def
  by (erule list_all_update_slot) (simp add: list_all_update_channel store_message_def)

lemma chan_inv_find_or_create:
  "chan_inv s \<Longrightarrow> find_or_create_channel s sl c env = Some s1 \<Longrightarrow> chan_inv s1"
  by (auto simp: find_or_create_channel_def chan_inv_add_channel split: option.splits)

lemma device_write_inv: "chan_inv s \<Longrightarrow> chan_inv (fst (device_write s filp buffer len env))"
  by (auto simp: device_write_def Let_def chan_inv_find_or_create chan_inv_store
           split: option.splits)

lemma device_write_slot:
  "find_slot (fst (device_write s filp buffer len env)) m' = None \<longleftrightarrow> find_slot s m' = None"
  by (auto simp: device_write_def Let_def find_or_create_slot find_slot_update_slot
           split: option.splits)

lemma device_write_frame:
  assumes "\<And>fl st. filp = Some fl \<Longrightarrow> private_data fl = Some st \<Longrightarrow>
             (m', c') \<noteq> (f_minor fl, channel_id st)"
  shows "lookup_channel (fst (device_write s filp buffer len env)) m' c' = lookup_channel s m' c'"
proof (cases "\<exists>e. device_write s filp buffer len env = (s, e)")
  case True
  then show ?thesis by auto
next
  case False
  then obtain fl st sl s1 where h: "filp = Some fl" "private_data fl = Some st"
      "find_slot s (f_minor fl) = Some sl"
      "find_or_create_channel s sl (channel_id st) env = Some s1"
    by (auto simp: device_write_def split: option.splits if_splits)
  have ms: "minor sl = f_minor fl" using h(3) by (rule find_slot_minor)
  have ne: "(m', c') \<noteq> (f_minor fl, channel_id st)" using assms h by blast
  have fr: "lookup_channel s1 m' c' = lookup_channel s m' c'"
    using h(3,4) ne by (rule find_or_create_frame)
  show ?thesis using h fr ne
    by (auto simp: device_write_def Let_def ms lookup_store split: option.splits)
qed

lemma device_write_success:
  assumes pd: "private_data fl = Some st" and cid: "channel_id st \<noteq> 0"
    and len: "0 < len" "len \<le> MAX_MESSAGE_LENGTH"
    and slot: "find_slot s (f_minor fl) \<noteq> None"
    and buf: "len \<le> length bs"
    and kb: "kmalloc_kbuf env"
    and al: "lookup_channel s (f_minor fl) (channel_id st) \<noteq> None \<or> kmalloc_channel env \<noteq> None"
  obtains s' ch where
    "device_write s (Some fl) (Mapped bs) len env = (s', Inr len)"
    "lookup_channel s' (f_minor fl) (channel_id st) = Some ch"
    "message_length ch = len"
    "take len (message ch) =
       (if censorship_enabled st \<noteq> 0 then censor_loop 2 len (take len bs) else take len bs)"
proof -
  from slot obtain sl where sl: "find_slot s (f_minor fl) = Some sl" by auto
  have ms: "minor sl = f_minor fl" using sl by (rule find_slot_minor)
  have lk: "lookup_channel s (f_minor fl) (channel_id st) = find_channel (channels sl) (channel_id st)"
    using sl by (simp add: lookup_channel_def)
  have "find_or_create_channel s sl (channel_id st) env \<noteq> None"
    using al lk by (auto simp: find_or_create_channel_def split: option.splits)
  then obtain s1 where s1: "find_or_create_channel s sl (channel_id st) env = Some s1"
    by blast
  from find_or_create_lookup [OF sl s1]
  obtain ch1 where ch1: "lookup_channel s1 (f_minor fl) (channel_id st) = Some ch1" by blast
  define kbuf where "kbuf = (if censorship_enabled st \<noteq> 0 then censor_loop 2 len (take len bs) else take len bs)"
  have lkb: "length kbuf = len" using buf by (simp add: kbuf_def)
  define s' where "s' = update_slot s1 (f_minor fl)
     (\<lambda>x. x\<lparr>channels := update_channel (channels x) (channel_id st) (store_message kbuf len)\<rparr>)"
  have w: "device_write s (Some fl) (Mapped bs) len env = (s', Inr len)"
    using pd cid len sl s1 kb buf
    by (simp add: device_write_def Let_def ms s'_def kbuf_def)
  have l: "lookup_channel s' (f_minor fl) (channel_id st) = Some (store_message kbuf len ch1)"
    by (simp add: s'_def lookup_store ch1)
  show thesis
  proof (rule that [OF w l])
    show "message_length (store_message kbuf len ch1) = len" by (simp add: store_message_def)
    show "take len (message (store_message kbuf len ch1)) =
       (if censorship_enabled st \<noteq> 0 then censor_loop 2 len (take len bs) else take len bs)"
      using lkb by (simp add: store_message_def kbuf_def)
  qed
qed

lemma device_write_Inr:
  assumes "device_write s filp buffer len env = (s', Inr n)"
  shows "n = len \<and> 1 \<le> n \<and> n \<le> MAX_MESSAGE_LENGTH \<and>
         (\<exists>fl st ch. filp = Some fl \<and> private_data fl = Some st \<and>
            lookup_channel s' (f_minor fl) (channel_id st) = Some ch \<and> message_length ch = n)"
proof -
  from assms obtain fl st sl s1 kbuf where h: "filp = Some fl" "private_data fl = Some st"
      "len \<noteq> 0" "len \<le> MAX_MESSAGE_LENGTH" "n = len"
      "find_slot s (f_minor fl) = Some sl"
      "find_or_create_channel s sl (channel_id st) env = Some s1"
      "s' = update_slot s1 (minor sl)
        (\<lambda>x. x\<lparr>channels := update_channel (channels x) (channel_id st) (store_message kbuf len)\<rparr>)"
    by (auto simp: device_write_def Let_def split: option.splits if_splits)
  have ms: "minor sl = f_minor fl" using h(6) by (rule find_slot_minor)
  from find_or_create_lookup [OF h(6,7)]
  obtain ch1 where ch1: "lookup_channel s1 (f_minor fl) (channel_id st) = Some ch1" by blast
  have "lookup_channel s' (f_minor fl) (channel_id st) = Some (store_message kbuf len ch1)"
    by (simp add: h(8) ms lookup_store ch1)
  then show ?thesis using h by (simp add: store_message_def)
qed

lemma device_read_lookup:
  assumes "private_data fl = Some st" "channel_id st \<noteq> 0" "buffer \<noteq> NULL"
    "find_slot s (f_minor fl) \<noteq> None"
  shows "device_read s (Some fl) buffer cap =
     (s, case lookup_channel s (f_minor fl) (channel_id st) of
           None \<Rightarrow> Inl EWOULDBLOCK
         | Some ch \<Rightarrow>
             if message_length ch = 0 then Inl EWOULDBLOCK
             else if cap < message_length ch then Inl ENOSPC
             else (case copy_to_user buffer (message ch) (message_length ch) of
                     None \<Rightarrow> Inl EFAULT
                   | Some ubuf \<Rightarrow> Inr (message_length ch, ubuf)))"
  using assms by (auto simp: device_read_def lookup_channel_def split: option.splits)

lemma device_read_state: "fst (device_read s filp buffer cap) = s"
  by (auto simp: device_read_def split: option.splits)

lemma lookup_find_slot: "lookup_channel s m c = Some ch \<Longrightarrow> find_slot s m \<noteq> None"
  by (auto simp: lookup_channel_def split: option.splits)


lemma censor_loop_spec: "censor_loop 2 (length kbuf) kbuf = censor_spec kbuf"
  by (rule nth_equalityI) (simp_all add: censor_spec_def censor_loop_nth)

lemma write_then_read:
  assumes w: "private_data wfl = Some wst" "channel_id wst = c" 
    and r: "private_data rfl = Some rst" "channel_id rst = c" "f_minor rfl = f_minor wfl"
    and c: "c \<noteq> 0"
    and len: "1 \<le> length m" "length m \<le> MAX_MESSAGE_LENGTH"
    and slot: "find_slot s (f_minor wfl) \<noteq> None"
    and env: "kmalloc_kbuf env"
      "lookup_channel s (f_minor wfl) c \<noteq> None \<or> kmalloc_channel env \<noteq> None"
    and cap: "length m \<le> cap" "length m \<le> length ubuf"
  shows "snd (device_write s (Some wfl) (Mapped m) (length m) env) = Inr (length m) \<and>
         (\<exists>ch. lookup_channel (fst (device_write s (Some wfl) (Mapped m) (length m) env)) (f_minor wfl) c = Some ch
            \<and> message_length ch = length m
            \<and> take (length m) (message ch) = (if censorship_enabled wst \<noteq> 0 then censor_spec m else m)) \<and>
         device_read (fst (device_write s (Some wfl) (Mapped m) (length m) env))
            (Some rfl) (Mapped ubuf) cap =
           (fst (device_write s (Some wfl) (Mapped m) (length m) env),
            Inr (length m, (if censorship_enabled wst \<noteq> 0 then censor_spec m else m) @ drop (length m) ubuf))"
proof -
  have c': "channel_id wst \<noteq> 0" using w c by simp
  have len': "0 < length m" using len(1) by (cases m) simp_all
  have al: "lookup_channel s (f_minor wfl) (channel_id wst) \<noteq> None \<or> kmalloc_channel env \<noteq> None"
    using env w by simp
  obtain s' ch where
    wr: "device_write s (Some wfl) (Mapped m) (length m) env = (s', Inr (length m))"
    and lk: "lookup_channel s' (f_minor wfl) (channel_id wst) = Some ch"
    and ml: "message_length ch = length m"
    and msg: "take (length m) (message ch) =
       (if censorship_enabled wst \<noteq> 0 then censor_loop 2 (length m) (take (length m) m)
        else take (length m) m)"
    using device_write_success [OF w(1) c' len' len(2) slot order_refl env(1) al] by blast
  have msg': "take (length m) (message ch) = (if censorship_enabled wst \<noteq> 0 then censor_spec m else m)"
    using msg by (simp add: censor_loop_spec)
  have slot': "find_slot s' (f_minor rfl) \<noteq> None"
    using lookup_find_slot [OF lk] r by simp
  have c'': "channel_id rst \<noteq> 0" using r c by simp
  have "device_read s' (Some rfl) (Mapped ubuf) cap =
          (s', Inr (length m, (if censorship_enabled wst \<noteq> 0 then censor_spec m else m) @ drop (length m) ubuf))"
    using lk ml msg' cap len' w r
    by (simp add: device_read_lookup [OF r(1) c'' _ slot'])
  then show ?thesis using wr lk ml msg' w by simp
qed


lemma device_open_inv: "chan_inv s \<Longrightarrow> chan_inv (fst (device_open s env m fl))"
  by (auto simp: device_open_def open_state_def chan_inv_def split: option.splits)

lemma device_open_fresh:
  "device_open s env m fl0 = (s1, Inr fl) \<Longrightarrow>
   private_data fl = Some \<lparr>channel_id = 0, censorship_enabled = 0\<rparr>"
  by (auto simp: device_open_def open_state_def split: option.splits if_splits)

lemma device_open_slot:
  "device_open s env m fl0 = (s1, Inr fl) \<Longrightarrow> find_slot s1 m \<noteq> None"
  by (auto simp: device_open_def open_state_def split: option.splits if_splits)

lemma exec_keeps_slot:
  assumes "find_slot s m \<noteq> None"
  shows "find_slot (exec s call) m \<noteq> None"
proof (cases call)
  case (Open env m' fl)
  then show ?thesis using assms
    by (auto simp: device_open_def open_state_def split: option.splits)
next
  case (Write filp buffer len env)
  then show ?thesis using assms by (simp add: device_write_slot)
next
  case (Read filp buffer len)
  then show ?thesis using assms by (simp add: device_read_state)
qed (use assms in simp_all)

lemma censor_loop_idem:
  "censor_loop 2 (length (censor_loop 2 (length m) m)) (censor_loop 2 (length m) m)
     = censor_loop 2 (length m) m"
  by (rule nth_equalityI) (simp_all add: censor_loop_nth)

section \<open>The claims\<close>

text \<open>
  The specification's error names are the driver's error codes: \<open>InvalidChannel\<close> is
  \<open>EINVAL\<close>, \<open>MessageTooLarge\<close> is \<open>EMSGSIZE\<close>, \<open>ChannelEmpty\<close> is \<open>EWOULDBLOCK\<close>,
  \<open>BufferTooSmall\<close> is \<open>ENOSPC\<close>, \<open>ResourceExhausted\<close> is \<open>ENOMEM\<close> and
  \<open>FaultyInput\<close>/\<open>FaultyOutput\<close> is \<open>EFAULT\<close>. A session is an opened
  \<open>struct file\<close>: its \<open>private_data\<close> is set, and the slot of its minor number is in the
  list (\<open>device_open_slot\<close>, \<open>exec_keeps_slot\<close>: \<open>device_open\<close> puts it there and
  no call removes it).
\<close>

text \<open>
  C1: for every endpoint, every nonzero channel id \<open>c\<close> and every message \<open>m\<close> of 1 to 128
  bytes, writing \<open>m\<close> to channel \<open>c\<close> with censorship disabled and then reading channel
  \<open>c\<close> with a capacity of at least \<open>length m\<close> returns exactly \<open>m\<close>, whatever the slot list
  \<open>s\<close> held before, so also when the channel already held another message; and every
  later read of the channel that succeeds, with any buffer and capacity, returns \<open>m\<close>, so
  nothing of an earlier message can be read back. The write and the read may come from
  different sessions on the same endpoint; the allocations of the write succeed and both
  user buffers are accessible.
\<close>

theorem write_read_roundtrip:
  assumes "private_data wfl = Some wst" "channel_id wst = c" "censorship_enabled wst = 0"
    and "private_data rfl = Some rst" "channel_id rst = c" "f_minor rfl = f_minor wfl"
    and "c \<noteq> 0" "len = length m" "1 \<le> len" "len \<le> 128"
    and "find_slot s (f_minor wfl) \<noteq> None"
    and "kmalloc_kbuf env"
    and "lookup_channel s (f_minor wfl) c \<noteq> None \<or> kmalloc_channel env \<noteq> None"
    and "len \<le> cap" "len \<le> length ubuf"
  shows "snd (device_write s (Some wfl) (Mapped m) len env) = Inr len \<and>
         device_read (fst (device_write s (Some wfl) (Mapped m) len env))
            (Some rfl) (Mapped ubuf) cap =
           (fst (device_write s (Some wfl) (Mapped m) len env), Inr (len, m @ drop len ubuf)) \<and>
         (snd (device_read (fst (device_write s (Some wfl) (Mapped m) len env))
                 (Some rfl) rbuf rcap) = Inr (n, out)
            \<longrightarrow> n = len \<and> take n out = m)"
proof -
  let ?s' = "fst (device_write s (Some wfl) (Mapped m) len env)"
  have l: "1 \<le> length m" "length m \<le> MAX_MESSAGE_LENGTH" "length m \<le> cap" "length m \<le> length ubuf"
    using assms(8,9,10,14,15) by (simp_all add: MAX_MESSAGE_LENGTH_def)
  note wr = write_then_read [OF assms(1,2,4,5,6,7) l(1,2) assms(11,12,13) l(3,4)]
  from wr assms(3,8) obtain ch where
    ch: "lookup_channel ?s' (f_minor wfl) c = Some ch" "message_length ch = len"
      "take len (message ch) = m"
    by auto
  have "n = len \<and> take n out = m"
    if "snd (device_read ?s' (Some rfl) rbuf rcap) = Inr (n, out)"
  proof (cases "rbuf = NULL")
    case True
    then show ?thesis using that assms(4) by (simp add: device_read_def)
  next
    case False
    have slot: "find_slot ?s' (f_minor rfl) \<noteq> None"
      using lookup_find_slot [OF ch(1)] assms(6) by simp
    have c0: "channel_id rst \<noteq> 0" using assms(5,7) by simp
    have pos: "message_length ch \<noteq> 0" using ch(2) assms(9) by simp
    have lk: "lookup_channel ?s' (f_minor rfl) (channel_id rst) = Some ch"
      using ch(1) assms(5,6) by simp
    have rd: "snd (device_read ?s' (Some rfl) rbuf rcap) =
        (if rcap < len then Inl ENOSPC
         else case copy_to_user rbuf (message ch) len of
                None \<Rightarrow> Inl EFAULT | Some ub \<Rightarrow> Inr (len, ub))"
      using pos ch(2)
      by (simp add: device_read_lookup [OF assms(4) c0 False slot] lk split: option.splits)
    have "n = len \<and> (\<exists>rb. out = take len (message ch) @ drop len rb)"
    proof (cases rbuf)
      case (Mapped rb)
      then show ?thesis using that rd by (auto split: if_splits)
    qed (use that rd in \<open>auto split: if_splits\<close>)
    then obtain rb where n: "n = len" and out: "out = take len (message ch) @ drop len rb"
      by blast
    show ?thesis using n out ch(3) assms(8) by simp
  qed
  then show ?thesis using wr assms(3,8) by simp
qed

theorem write_read_roundtrip_witness:
  "snd (device_write
          [\<lparr>minor = 3, channels = [\<lparr>id_ch = 7, message = ''HELLO WORLD'' @ replicate 117 CHR ''.'', message_length = 11\<rparr>]\<rparr>]
          (Some \<lparr>f_minor = 3, private_data = Some \<lparr>channel_id = 7, censorship_enabled = 0\<rparr>\<rparr>)
          (Mapped ''BYE'') 3 \<lparr>kmalloc_channel = None, kmalloc_kbuf = True\<rparr>) = Inr 3 \<and>
   snd (device_read
     (fst (device_write
          [\<lparr>minor = 3, channels = [\<lparr>id_ch = 7, message = ''HELLO WORLD'' @ replicate 117 CHR ''.'', message_length = 11\<rparr>]\<rparr>]
          (Some \<lparr>f_minor = 3, private_data = Some \<lparr>channel_id = 7, censorship_enabled = 0\<rparr>\<rparr>)
          (Mapped ''BYE'') 3 \<lparr>kmalloc_channel = None, kmalloc_kbuf = True\<rparr>))
     (Some \<lparr>f_minor = 3, private_data = Some \<lparr>channel_id = 7, censorship_enabled = 1\<rparr>\<rparr>)
     (Mapped ''........'') 8) = Inr (3, ''BYE.....'')"
  using write_read_roundtrip
    [of "\<lparr>f_minor = 3, private_data = Some \<lparr>channel_id = 7, censorship_enabled = 0\<rparr>\<rparr>"
        "\<lparr>channel_id = 7, censorship_enabled = 0\<rparr>" 7
        "\<lparr>f_minor = 3, private_data = Some \<lparr>channel_id = 7, censorship_enabled = 1\<rparr>\<rparr>"
        "\<lparr>channel_id = 7, censorship_enabled = 1\<rparr>"
        3 "''BYE''"
        "[\<lparr>minor = 3, channels = [\<lparr>id_ch = 7, message = ''HELLO WORLD'' @ replicate 117 CHR ''.'', message_length = 11\<rparr>]\<rparr>]"
        "\<lparr>kmalloc_channel = None, kmalloc_kbuf = True\<rparr>" 8 "''........''"
        "Mapped ''........''" 8 3 "''BYE.....''"]
  by (simp add: lookup_channel_def)


text \<open>
  C2: with the session's censorship flag enabled (any nonzero value), a write of the bytes
  \<open>b\<close> stores the transform of \<open>b\<close> in which every byte at a 0-based index \<open>i\<close> with
  \<open>i \<ge> 2\<close> and \<open>(i - 2) mod 3 = 0\<close> is \<open>#\<close> and every other byte is unchanged
  (\<open>censor_spec\<close>), and a read returns it; in particular \<open>ABCDEFGHI\<close> becomes
  \<open>AB#DE#GH#\<close>.
\<close>

theorem censored_write_stores_masked:
  assumes "private_data wfl = Some wst" "channel_id wst = c" "censorship_enabled wst \<noteq> 0"
    and "private_data rfl = Some rst" "channel_id rst = c" "f_minor rfl = f_minor wfl"
    and "c \<noteq> 0" "len = length b" "1 \<le> len" "len \<le> 128"
    and "find_slot s (f_minor wfl) \<noteq> None"
    and "kmalloc_kbuf env"
    and "lookup_channel s (f_minor wfl) c \<noteq> None \<or> kmalloc_channel env \<noteq> None"
    and "len \<le> cap" "len \<le> length ubuf"
  shows "snd (device_write s (Some wfl) (Mapped b) len env) = Inr len \<and>
         (\<exists>ch. lookup_channel (fst (device_write s (Some wfl) (Mapped b) len env)) (f_minor wfl) c
                 = Some ch \<and>
               message_length ch = len \<and> take len (message ch) = censor_spec b) \<and>
         device_read (fst (device_write s (Some wfl) (Mapped b) len env))
            (Some rfl) (Mapped ubuf) cap =
           (fst (device_write s (Some wfl) (Mapped b) len env),
            Inr (len, censor_spec b @ drop len ubuf)) \<and>
         censor_spec ''ABCDEFGHI'' = ''AB#DE#GH#''"
proof -
  have l: "1 \<le> length b" "length b \<le> MAX_MESSAGE_LENGTH" "length b \<le> cap" "length b \<le> length ubuf"
    using assms(8,9,10,14,15) by (simp_all add: MAX_MESSAGE_LENGTH_def)
  have ex: "censor_spec ''ABCDEFGHI'' = ''AB#DE#GH#''"
    by (simp add: censor_spec_def upt_rec)
  from write_then_read [OF assms(1,2,4,5,6,7) l(1,2) assms(11,12,13) l(3,4)] assms(3,8) ex
  show ?thesis by simp
qed

theorem censored_write_stores_masked_witness:
  "snd (device_write [\<lparr>minor = 0, channels = []\<rparr>]
          (Some \<lparr>f_minor = 0, private_data = Some \<lparr>channel_id = 1, censorship_enabled = 1\<rparr>\<rparr>)
          (Mapped ''ABCDEFGHI'') 9 \<lparr>kmalloc_channel = Some (\<lambda>i. CHR ''?''), kmalloc_kbuf = True\<rparr>)
     = Inr 9 \<and>
   snd (device_read
     (fst (device_write [\<lparr>minor = 0, channels = []\<rparr>]
          (Some \<lparr>f_minor = 0, private_data = Some \<lparr>channel_id = 1, censorship_enabled = 1\<rparr>\<rparr>)
          (Mapped ''ABCDEFGHI'') 9 \<lparr>kmalloc_channel = Some (\<lambda>i. CHR ''?''), kmalloc_kbuf = True\<rparr>))
     (Some \<lparr>f_minor = 0, private_data = Some \<lparr>channel_id = 1, censorship_enabled = 0\<rparr>\<rparr>)
     (Mapped ''.........'') 9) = Inr (9, ''AB#DE#GH#'')"
  using censored_write_stores_masked
    [of "\<lparr>f_minor = 0, private_data = Some \<lparr>channel_id = 1, censorship_enabled = 1\<rparr>\<rparr>"
        "\<lparr>channel_id = 1, censorship_enabled = 1\<rparr>" 1
        "\<lparr>f_minor = 0, private_data = Some \<lparr>channel_id = 1, censorship_enabled = 0\<rparr>\<rparr>"
        "\<lparr>channel_id = 1, censorship_enabled = 0\<rparr>"
        9 "''ABCDEFGHI''" "[\<lparr>minor = 0, channels = []\<rparr>]"
        "\<lparr>kmalloc_channel = Some (\<lambda>i. CHR ''?''), kmalloc_kbuf = True\<rparr>" 9 "''.........''"]
  by simp

text \<open>
  C4: when the channel holds a message of length \<open>L\<close>, a read with a capacity below \<open>L\<close>
  fails with \<open>ENOSPC\<close> (BufferTooSmall) and leaves the slot list, so the stored message and
  its length, as they were; a read with a capacity of at least \<open>L\<close> after it succeeds with
  the \<open>L\<close> stored bytes.
\<close>

theorem short_read_keeps_message:
  assumes "private_data fl = Some st" "channel_id st \<noteq> 0"
    and "lookup_channel s (f_minor fl) (channel_id st) = Some ch"
    and "message_length ch = L"
    and "buffer \<noteq> NULL" "cap < L"
    and "L \<le> cap2" "L \<le> length ubuf"
  shows "device_read s (Some fl) buffer cap = (s, Inl ENOSPC) \<and>
         lookup_channel (fst (device_read s (Some fl) buffer cap)) (f_minor fl) (channel_id st)
           = Some ch \<and>
         device_read (fst (device_read s (Some fl) buffer cap)) (Some fl) (Mapped ubuf) cap2 =
           (s, Inr (L, take L (message ch) @ drop L ubuf))"
proof -
  have slot: "find_slot s (f_minor fl) \<noteq> None" using assms(3) by (rule lookup_find_slot)
  have pos: "message_length ch \<noteq> 0" using assms(4,6) by simp
  have first: "device_read s (Some fl) buffer cap = (s, Inl ENOSPC)"
    using assms(3,4,6) pos by (simp add: device_read_lookup [OF assms(1,2,5) slot])
  have "device_read s (Some fl) (Mapped ubuf) cap2 = (s, Inr (L, take L (message ch) @ drop L ubuf))"
    using assms(3,4,7,8) pos by (simp add: device_read_lookup [OF assms(1,2) _ slot])
  then show ?thesis using first assms(3) by simp
qed

theorem short_read_keeps_message_witness:
  "device_read
     [\<lparr>minor = 2, channels = [\<lparr>id_ch = 5, message = ''12345678'' @ replicate 120 CHR ''.'', message_length = 8\<rparr>]\<rparr>]
     (Some \<lparr>f_minor = 2, private_data = Some \<lparr>channel_id = 5, censorship_enabled = 0\<rparr>\<rparr>)
     (Mapped ''abcd'') 4 =
     ([\<lparr>minor = 2, channels = [\<lparr>id_ch = 5, message = ''12345678'' @ replicate 120 CHR ''.'', message_length = 8\<rparr>]\<rparr>],
      Inl ENOSPC) \<and>
   device_read
     (fst (device_read
        [\<lparr>minor = 2, channels = [\<lparr>id_ch = 5, message = ''12345678'' @ replicate 120 CHR ''.'', message_length = 8\<rparr>]\<rparr>]
        (Some \<lparr>f_minor = 2, private_data = Some \<lparr>channel_id = 5, censorship_enabled = 0\<rparr>\<rparr>)
        (Mapped ''abcd'') 4))
     (Some \<lparr>f_minor = 2, private_data = Some \<lparr>channel_id = 5, censorship_enabled = 0\<rparr>\<rparr>)
     (Mapped ''abcdefgh'') 8 =
     ([\<lparr>minor = 2, channels = [\<lparr>id_ch = 5, message = ''12345678'' @ replicate 120 CHR ''.'', message_length = 8\<rparr>]\<rparr>],
      Inr (8, ''12345678''))"
proof -
  have lk: "lookup_channel
        [\<lparr>minor = 2, channels = [\<lparr>id_ch = 5, message = ''12345678'' @ replicate 120 CHR ''.'', message_length = 8\<rparr>]\<rparr>]
        (f_minor \<lparr>f_minor = 2, private_data = Some \<lparr>channel_id = 5, censorship_enabled = 0\<rparr>\<rparr>)
        (channel_id \<lparr>channel_id = 5, censorship_enabled = 0\<rparr>)
      = Some \<lparr>id_ch = 5, message = ''12345678'' @ replicate 120 CHR ''.'', message_length = 8\<rparr>"
    by (simp add: lookup_channel_def)
  show ?thesis
    using short_read_keeps_message [OF _ _ lk, of 8 "Mapped ''abcd''" 4 8 "''abcdefgh''"]
    by (simp add: device_read_state)
qed

text \<open>
  C5: on a session with a nonzero channel selected, a write of length 0 and a write of any
  length above 128 fail with \<open>EMSGSIZE\<close> (MessageTooLarge) and change nothing; a write of
  length exactly 128 succeeds: it returns 128 and the session's channel then holds a
  message of length 128 whose bytes are the 128 bytes written (masked by the censorship
  transform when the session's flag is set), given that the endpoint was opened, the
  allocations succeed and the 128 bytes of the caller's buffer are accessible.
\<close>

theorem write_length_bounds:
  assumes "private_data fl = Some st" "channel_id st \<noteq> 0" "buffer \<noteq> NULL"
  shows "device_write s (Some fl) buffer 0 env = (s, Inl EMSGSIZE) \<and>
         (128 < len \<longrightarrow> device_write s (Some fl) buffer len env = (s, Inl EMSGSIZE)) \<and>
         (find_slot s (f_minor fl) \<noteq> None \<and> kmalloc_kbuf env \<and>
          (lookup_channel s (f_minor fl) (channel_id st) \<noteq> None \<or> kmalloc_channel env \<noteq> None) \<and>
          buffer = Mapped bs \<and> 128 \<le> length bs
          \<longrightarrow> snd (device_write s (Some fl) buffer 128 env) = Inr 128 \<and>
              (\<exists>ch. lookup_channel (fst (device_write s (Some fl) buffer 128 env))
                        (f_minor fl) (channel_id st) = Some ch \<and>
                    message_length ch = 128 \<and>
                    take 128 (message ch) =
                      (if censorship_enabled st \<noteq> 0 then censor_spec (take 128 bs)
                       else take 128 bs)))"
proof (intro conjI impI)
  show "device_write s (Some fl) buffer 0 env = (s, Inl EMSGSIZE)"
    using assms by (simp add: device_write_def)
next
  assume "128 < len"
  then show "device_write s (Some fl) buffer len env = (s, Inl EMSGSIZE)"
    using assms by (simp add: device_write_def MAX_MESSAGE_LENGTH_def)
next
  assume h: "find_slot s (f_minor fl) \<noteq> None \<and> kmalloc_kbuf env \<and>
          (lookup_channel s (f_minor fl) (channel_id st) \<noteq> None \<or> kmalloc_channel env \<noteq> None) \<and>
          buffer = Mapped bs \<and> 128 \<le> length bs"
  have p: "0 < (128::nat)" "128 \<le> MAX_MESSAGE_LENGTH"
    "find_slot s (f_minor fl) \<noteq> None" "128 \<le> length bs" "kmalloc_kbuf env"
    "lookup_channel s (f_minor fl) (channel_id st) \<noteq> None \<or> kmalloc_channel env \<noteq> None"
    using h by (simp_all add: MAX_MESSAGE_LENGTH_def)
  obtain s' ch where
    wr: "device_write s (Some fl) (Mapped bs) 128 env = (s', Inr 128)"
    and lk: "lookup_channel s' (f_minor fl) (channel_id st) = Some ch"
    and ml: "message_length ch = 128"
    and msg: "take 128 (message ch) =
       (if censorship_enabled st \<noteq> 0 then censor_loop 2 128 (take 128 bs) else take 128 bs)"
    using device_write_success [OF assms(1,2) p] by blast
  have "length (take 128 bs) = 128" using p(4) by simp
  then have "censor_loop 2 128 (take 128 bs) = censor_spec (take 128 bs)"
    using censor_loop_spec [of "take 128 bs"] by simp
  then have msg': "take 128 (message ch) =
       (if censorship_enabled st \<noteq> 0 then censor_spec (take 128 bs) else take 128 bs)"
    using msg by simp
  show "snd (device_write s (Some fl) buffer 128 env) = Inr 128"
    using wr h by simp
  show "\<exists>ch. lookup_channel (fst (device_write s (Some fl) buffer 128 env))
                        (f_minor fl) (channel_id st) = Some ch \<and>
                    message_length ch = 128 \<and>
                    take 128 (message ch) =
                      (if censorship_enabled st \<noteq> 0 then censor_spec (take 128 bs)
                       else take 128 bs)"
    using wr h lk ml msg' by simp
qed

theorem write_length_bounds_witness:
  "device_write [\<lparr>minor = 0, channels = []\<rparr>]
     (Some \<lparr>f_minor = 0, private_data = Some \<lparr>channel_id = 1, censorship_enabled = 0\<rparr>\<rparr>)
     (Mapped (replicate 128 CHR ''a'')) 0 \<lparr>kmalloc_channel = Some (\<lambda>i. CHR ''?''), kmalloc_kbuf = True\<rparr>
     = ([\<lparr>minor = 0, channels = []\<rparr>], Inl EMSGSIZE) \<and>
   device_write [\<lparr>minor = 0, channels = []\<rparr>]
     (Some \<lparr>f_minor = 0, private_data = Some \<lparr>channel_id = 1, censorship_enabled = 0\<rparr>\<rparr>)
     (Mapped (replicate 128 CHR ''a'')) 129 \<lparr>kmalloc_channel = Some (\<lambda>i. CHR ''?''), kmalloc_kbuf = True\<rparr>
     = ([\<lparr>minor = 0, channels = []\<rparr>], Inl EMSGSIZE) \<and>
   snd (device_write [\<lparr>minor = 0, channels = []\<rparr>]
     (Some \<lparr>f_minor = 0, private_data = Some \<lparr>channel_id = 1, censorship_enabled = 0\<rparr>\<rparr>)
     (Mapped (replicate 128 CHR ''a'')) 128 \<lparr>kmalloc_channel = Some (\<lambda>i. CHR ''?''), kmalloc_kbuf = True\<rparr>)
     = Inr 128 \<and>
   (\<exists>ch. lookup_channel
      (fst (device_write [\<lparr>minor = 0, channels = []\<rparr>]
        (Some \<lparr>f_minor = 0, private_data = Some \<lparr>channel_id = 1, censorship_enabled = 0\<rparr>\<rparr>)
        (Mapped (replicate 128 CHR ''a'')) 128
        \<lparr>kmalloc_channel = Some (\<lambda>i. CHR ''?''), kmalloc_kbuf = True\<rparr>)) 0 1 = Some ch \<and>
      message_length ch = 128 \<and> take 128 (message ch) = replicate 128 CHR ''a'')"
  using write_length_bounds
    [of "\<lparr>f_minor = 0, private_data = Some \<lparr>channel_id = 1, censorship_enabled = 0\<rparr>\<rparr>"
        "\<lparr>channel_id = 1, censorship_enabled = 0\<rparr>"
        "Mapped (replicate 128 CHR ''a'')"
        "[\<lparr>minor = 0, channels = []\<rparr>]"
        "\<lparr>kmalloc_channel = Some (\<lambda>i. CHR ''?''), kmalloc_kbuf = True\<rparr>"
        129 "replicate 128 CHR ''a''"]
  by simp

text \<open>
  C6: a session as \<open>device_open\<close> returns it has \<open>channel_id = 0\<close>; and on every session
  whose \<open>channel_id\<close> is 0, every write and every read, whatever their arguments, fails
  with \<open>EINVAL\<close> (InvalidChannel) and returns the slot list unchanged.
\<close>

theorem unselected_channel_rejected:
  "(device_open s0 oenv m fl0 = (s1, Inr fl) \<longrightarrow>
      (\<exists>st. private_data fl = Some st \<and> channel_id st = 0)) \<and>
   (private_data fl = Some st \<and> channel_id st = 0 \<longrightarrow>
      device_write s (Some fl) wbuf len env = (s, Inl EINVAL) \<and>
      device_read s (Some fl) rbuf cap = (s, Inl EINVAL))"
proof (intro conjI impI)
  assume "device_open s0 oenv m fl0 = (s1, Inr fl)"
  then show "\<exists>st. private_data fl = Some st \<and> channel_id st = 0"
    by (auto dest: device_open_fresh)
next
  assume h: "private_data fl = Some st \<and> channel_id st = 0"
  then show "device_write s (Some fl) wbuf len env = (s, Inl EINVAL)"
    by (simp add: device_write_def)
  from h show "device_read s (Some fl) rbuf cap = (s, Inl EINVAL)"
    by (simp add: device_read_def)
qed

theorem unselected_channel_rejected_witness:
  "device_open [] \<lparr>kmalloc_slot = True, kmalloc_state = True\<rparr> 4 \<lparr>f_minor = 4, private_data = None\<rparr>
     = ([\<lparr>minor = 4, channels = []\<rparr>],
        Inr \<lparr>f_minor = 4, private_data = Some \<lparr>channel_id = 0, censorship_enabled = 0\<rparr>\<rparr>) \<and>
   device_write [\<lparr>minor = 4, channels = []\<rparr>]
     (Some \<lparr>f_minor = 4, private_data = Some \<lparr>channel_id = 0, censorship_enabled = 0\<rparr>\<rparr>)
     (Mapped ''hello'') 5 \<lparr>kmalloc_channel = Some (\<lambda>i. CHR ''?''), kmalloc_kbuf = True\<rparr>
     = ([\<lparr>minor = 4, channels = []\<rparr>], Inl EINVAL) \<and>
   device_read [\<lparr>minor = 4, channels = []\<rparr>]
     (Some \<lparr>f_minor = 4, private_data = Some \<lparr>channel_id = 0, censorship_enabled = 0\<rparr>\<rparr>)
     (Mapped ''.....'') 5
     = ([\<lparr>minor = 4, channels = []\<rparr>], Inl EINVAL)"
proof -
  have op: "device_open [] \<lparr>kmalloc_slot = True, kmalloc_state = True\<rparr> 4
              \<lparr>f_minor = 4, private_data = None\<rparr>
     = ([\<lparr>minor = 4, channels = []\<rparr>],
        Inr \<lparr>f_minor = 4, private_data = Some \<lparr>channel_id = 0, censorship_enabled = 0\<rparr>\<rparr>)"
    by (simp add: device_open_def open_state_def)
  show ?thesis
    using op unselected_channel_rejected
      [of "[]" "\<lparr>kmalloc_slot = True, kmalloc_state = True\<rparr>" 4
          "\<lparr>f_minor = 4, private_data = None\<rparr>" "[\<lparr>minor = 4, channels = []\<rparr>]"
          "\<lparr>f_minor = 4, private_data = Some \<lparr>channel_id = 0, censorship_enabled = 0\<rparr>\<rparr>"
          "\<lparr>channel_id = 0, censorship_enabled = 0\<rparr>"
          "[\<lparr>minor = 4, channels = []\<rparr>]" "Mapped ''hello''" 5
          "\<lparr>kmalloc_channel = Some (\<lambda>i. CHR ''?''), kmalloc_kbuf = True\<rparr>"
          "Mapped ''.....''" 5]
    by simp
qed

text \<open>
  C7: when the selected channel does not exist under the session's endpoint, or exists with
  stored length 0, a read with any capacity fails with \<open>EWOULDBLOCK\<close> (ChannelEmpty).
\<close>

theorem read_unwritten_channel:
  assumes "private_data fl = Some st" "channel_id st \<noteq> 0" "buffer \<noteq> NULL"
    and "find_slot s (f_minor fl) \<noteq> None"
    and "lookup_channel s (f_minor fl) (channel_id st) = None \<or>
         (\<exists>ch. lookup_channel s (f_minor fl) (channel_id st) = Some ch \<and> message_length ch = 0)"
  shows "device_read s (Some fl) buffer cap = (s, Inl EWOULDBLOCK)"
  using assms(5) by (auto simp: device_read_lookup [OF assms(1-4)])

theorem read_unwritten_channel_witness:
  "device_read [\<lparr>minor = 4, channels = []\<rparr>]
     (Some \<lparr>f_minor = 4, private_data = Some \<lparr>channel_id = 9, censorship_enabled = 0\<rparr>\<rparr>)
     (Mapped (replicate 128 CHR ''.'')) 128
     = ([\<lparr>minor = 4, channels = []\<rparr>], Inl EWOULDBLOCK) \<and>
   device_read [\<lparr>minor = 4, channels = [\<lparr>id_ch = 9, message = replicate 128 CHR ''?'', message_length = 0\<rparr>]\<rparr>]
     (Some \<lparr>f_minor = 4, private_data = Some \<lparr>channel_id = 9, censorship_enabled = 0\<rparr>\<rparr>)
     (Mapped (replicate 128 CHR ''.'')) 128
     = ([\<lparr>minor = 4, channels = [\<lparr>id_ch = 9, message = replicate 128 CHR ''?'', message_length = 0\<rparr>]\<rparr>],
        Inl EWOULDBLOCK)"
  using read_unwritten_channel
      [of "\<lparr>f_minor = 4, private_data = Some \<lparr>channel_id = 9, censorship_enabled = 0\<rparr>\<rparr>"
          "\<lparr>channel_id = 9, censorship_enabled = 0\<rparr>" "Mapped (replicate 128 CHR ''.'')"
          "[\<lparr>minor = 4, channels = []\<rparr>]" 128]
    read_unwritten_channel
      [of "\<lparr>f_minor = 4, private_data = Some \<lparr>channel_id = 9, censorship_enabled = 0\<rparr>\<rparr>"
          "\<lparr>channel_id = 9, censorship_enabled = 0\<rparr>" "Mapped (replicate 128 CHR ''.'')"
          "[\<lparr>minor = 4, channels = [\<lparr>id_ch = 9, message = replicate 128 CHR ''?'', message_length = 0\<rparr>]\<rparr>]" 128]
  by (simp add: lookup_channel_def)

text \<open>
  C8: a write by a session on endpoint \<open>f_minor fl\<close> and channel \<open>channel_id st\<close> leaves
  every other channel, on the same endpoint or on another one, as it was: the whole channel
  record (id, message bytes, stored length) that a lookup finds is the same before and
  after, whether the write succeeds or fails.
\<close>

theorem write_leaves_other_channels:
  assumes "private_data fl = Some st"
    and "m2 \<noteq> f_minor fl \<or> c2 \<noteq> channel_id st"
  shows "lookup_channel (fst (device_write s (Some fl) buffer len env)) m2 c2 = lookup_channel s m2 c2"
  using assms by (intro device_write_frame) auto

theorem write_leaves_other_channels_witness:
  "lookup_channel
     (fst (device_write
        [\<lparr>minor = 1, channels = [\<lparr>id_ch = 2, message = ''other'' @ replicate 123 CHR ''.'', message_length = 5\<rparr>,
                                  \<lparr>id_ch = 3, message = ''mine'' @ replicate 124 CHR ''.'', message_length = 4\<rparr>]\<rparr>]
        (Some \<lparr>f_minor = 1, private_data = Some \<lparr>channel_id = 3, censorship_enabled = 0\<rparr>\<rparr>)
        (Mapped ''new'') 3 \<lparr>kmalloc_channel = None, kmalloc_kbuf = True\<rparr>)) 1 2
   = Some \<lparr>id_ch = 2, message = ''other'' @ replicate 123 CHR ''.'', message_length = 5\<rparr>"
  using write_leaves_other_channels
    [of "\<lparr>f_minor = 1, private_data = Some \<lparr>channel_id = 3, censorship_enabled = 0\<rparr>\<rparr>"
        "\<lparr>channel_id = 3, censorship_enabled = 0\<rparr>" 1 2
        "[\<lparr>minor = 1, channels = [\<lparr>id_ch = 2, message = ''other'' @ replicate 123 CHR ''.'', message_length = 5\<rparr>,
                                  \<lparr>id_ch = 3, message = ''mine'' @ replicate 124 CHR ''.'', message_length = 4\<rparr>]\<rparr>]"
        "Mapped ''new''" 3 "\<lparr>kmalloc_channel = None, kmalloc_kbuf = True\<rparr>"]
  by (simp add: lookup_channel_def)

text \<open>
  C9: the empty slot list satisfies the invariant that every stored length is at most 128,
  and every call (open, ioctl, write, read, release, with any arguments) preserves it; a
  new channel starts with length 0, and a write that succeeds has set the length of its
  channel to the length it was given, which lies between 1 and 128.
\<close>

theorem stored_length_invariant:
  "chan_inv [] \<and>
   (chan_inv s \<longrightarrow> chan_inv (exec s call)) \<and>
   message_length (new_channel c junk) = 0 \<and>
   (snd (device_write s filp buffer len env) = Inr n \<longrightarrow>
      n = len \<and> 1 \<le> n \<and> n \<le> 128 \<and>
      (\<exists>fl st ch. filp = Some fl \<and> private_data fl = Some st \<and>
         lookup_channel (fst (device_write s filp buffer len env)) (f_minor fl) (channel_id st)
           = Some ch \<and> message_length ch = n))"
proof (intro conjI impI)
  show "chan_inv []" by (simp add: chan_inv_def)
next
  assume "chan_inv s"
  then show "chan_inv (exec s call)"
    by (cases call) (simp_all add: device_open_inv device_write_inv device_read_state)
next
  show "message_length (new_channel c junk) = 0" by (simp add: new_channel_def)
next
  assume "snd (device_write s filp buffer len env) = Inr n"
  then have "device_write s filp buffer len env = (fst (device_write s filp buffer len env), Inr n)"
    by (metis prod.collapse)
  from device_write_Inr [OF this]
  show "n = len" "1 \<le> n" "n \<le> 128"
    "\<exists>fl st ch. filp = Some fl \<and> private_data fl = Some st \<and>
         lookup_channel (fst (device_write s filp buffer len env)) (f_minor fl) (channel_id st)
           = Some ch \<and> message_length ch = n"
    by (auto simp add: MAX_MESSAGE_LENGTH_def)
qed

theorem stored_length_invariant_witness:
  "chan_inv (exec [\<lparr>minor = 1, channels = [\<lparr>id_ch = 3, message = ''mine'' @ replicate 124 CHR ''.'', message_length = 4\<rparr>]\<rparr>]
     (Write (Some \<lparr>f_minor = 1, private_data = Some \<lparr>channel_id = 3, censorship_enabled = 0\<rparr>\<rparr>)
        (Mapped ''new'') 3 \<lparr>kmalloc_channel = None, kmalloc_kbuf = True\<rparr>)) \<and>
   (\<exists>ch. lookup_channel
     (fst (device_write [\<lparr>minor = 1, channels = [\<lparr>id_ch = 3, message = ''mine'' @ replicate 124 CHR ''.'', message_length = 4\<rparr>]\<rparr>]
        (Some \<lparr>f_minor = 1, private_data = Some \<lparr>channel_id = 3, censorship_enabled = 0\<rparr>\<rparr>)
        (Mapped ''new'') 3 \<lparr>kmalloc_channel = None, kmalloc_kbuf = True\<rparr>)) 1 3 = Some ch \<and>
     message_length ch = 3)"
proof -
  have w: "snd (device_write [\<lparr>minor = 1, channels = [\<lparr>id_ch = 3, message = ''mine'' @ replicate 124 CHR ''.'', message_length = 4\<rparr>]\<rparr>]
        (Some \<lparr>f_minor = 1, private_data = Some \<lparr>channel_id = 3, censorship_enabled = 0\<rparr>\<rparr>)
        (Mapped ''new'') 3 \<lparr>kmalloc_channel = None, kmalloc_kbuf = True\<rparr>) = Inr 3"
    by (simp add: device_write_def find_or_create_channel_def MAX_MESSAGE_LENGTH_def)
  have i: "chan_inv [\<lparr>minor = 1, channels = [\<lparr>id_ch = 3, message = ''mine'' @ replicate 124 CHR ''.'', message_length = 4\<rparr>]\<rparr>]"
    by (simp add: chan_inv_def MAX_MESSAGE_LENGTH_def)
  show ?thesis
    using w i stored_length_invariant
      [of "[\<lparr>minor = 1, channels = [\<lparr>id_ch = 3, message = ''mine'' @ replicate 124 CHR ''.'', message_length = 4\<rparr>]\<rparr>]"
          "Write (Some \<lparr>f_minor = 1, private_data = Some \<lparr>channel_id = 3, censorship_enabled = 0\<rparr>\<rparr>)
             (Mapped ''new'') 3 \<lparr>kmalloc_channel = None, kmalloc_kbuf = True\<rparr>"
          _ _
          "Some \<lparr>f_minor = 1, private_data = Some \<lparr>channel_id = 3, censorship_enabled = 0\<rparr>\<rparr>"
          "Mapped ''new''" 3 "\<lparr>kmalloc_channel = None, kmalloc_kbuf = True\<rparr>" 3]
    by auto
qed

text \<open>
  C10: the censorship loop is idempotent: running it on its own output gives the output
  again, for every byte sequence. So writing an already censored message with censorship
  enabled stores that message as it is.
\<close>

theorem censorship_idempotent:
  "censor_loop 2 (length (censor_loop 2 (length m) m)) (censor_loop 2 (length m) m)
     = censor_loop 2 (length m) m \<and>
   (private_data fl = Some st \<and> channel_id st \<noteq> 0 \<and> censorship_enabled st \<noteq> 0 \<and>
    len = length m \<and> 1 \<le> len \<and> len \<le> 128 \<and> find_slot s (f_minor fl) \<noteq> None \<and>
    kmalloc_kbuf env \<and>
    (lookup_channel s (f_minor fl) (channel_id st) \<noteq> None \<or> kmalloc_channel env \<noteq> None)
    \<longrightarrow>
    snd (device_write s (Some fl) (Mapped (censor_loop 2 len m)) len env) = Inr len \<and>
    (\<exists>ch. lookup_channel (fst (device_write s (Some fl) (Mapped (censor_loop 2 len m)) len env))
              (f_minor fl) (channel_id st) = Some ch \<and>
          message_length ch = len \<and> take len (message ch) = censor_loop 2 len m))"
proof (intro conjI impI)
  show "censor_loop 2 (length (censor_loop 2 (length m) m)) (censor_loop 2 (length m) m)
     = censor_loop 2 (length m) m"
    by (rule censor_loop_idem)
next
  assume h: "private_data fl = Some st \<and> channel_id st \<noteq> 0 \<and> censorship_enabled st \<noteq> 0 \<and>
    len = length m \<and> 1 \<le> len \<and> len \<le> 128 \<and> find_slot s (f_minor fl) \<noteq> None \<and>
    kmalloc_kbuf env \<and>
    (lookup_channel s (f_minor fl) (channel_id st) \<noteq> None \<or> kmalloc_channel env \<noteq> None)"
  let ?b = "censor_loop 2 len m"
  have lb: "length ?b = len" using h by simp
  have p: "private_data fl = Some st" "channel_id st \<noteq> 0" "0 < len" "len \<le> MAX_MESSAGE_LENGTH"
    "find_slot s (f_minor fl) \<noteq> None" "len \<le> length ?b" "kmalloc_kbuf env"
    "lookup_channel s (f_minor fl) (channel_id st) \<noteq> None \<or> kmalloc_channel env \<noteq> None"
    using h lb by (auto simp add: MAX_MESSAGE_LENGTH_def)
  obtain s' ch where
    wr: "device_write s (Some fl) (Mapped ?b) len env = (s', Inr len)"
    and lk: "lookup_channel s' (f_minor fl) (channel_id st) = Some ch"
    and ml: "message_length ch = len"
    and msg: "take len (message ch) =
       (if censorship_enabled st \<noteq> 0 then censor_loop 2 len (take len ?b) else take len ?b)"
    using device_write_success [OF p] by blast
  have "take len (message ch) = ?b"
    using msg h lb censor_loop_idem [of m] by simp
  then show "snd (device_write s (Some fl) (Mapped ?b) len env) = Inr len"
    and "\<exists>ch. lookup_channel (fst (device_write s (Some fl) (Mapped ?b) len env))
              (f_minor fl) (channel_id st) = Some ch \<and>
          message_length ch = len \<and> take len (message ch) = ?b"
    using wr lk ml by simp_all
qed

theorem censorship_idempotent_witness:
  "(\<exists>ch. lookup_channel
      (fst (device_write [\<lparr>minor = 0, channels = []\<rparr>]
          (Some \<lparr>f_minor = 0, private_data = Some \<lparr>channel_id = 1, censorship_enabled = 1\<rparr>\<rparr>)
          (Mapped (censor_loop 2 9 ''ABCDEFGHI'')) 9
          \<lparr>kmalloc_channel = Some (\<lambda>i. CHR ''?''), kmalloc_kbuf = True\<rparr>)) 0 1 = Some ch \<and>
      message_length ch = 9 \<and> take 9 (message ch) = ''AB#DE#GH#'')"
  using censorship_idempotent
    [of "''ABCDEFGHI''"
        "\<lparr>f_minor = 0, private_data = Some \<lparr>channel_id = 1, censorship_enabled = 1\<rparr>\<rparr>"
        "\<lparr>channel_id = 1, censorship_enabled = 1\<rparr>" 9
        "[\<lparr>minor = 0, channels = []\<rparr>]"
        "\<lparr>kmalloc_channel = Some (\<lambda>i. CHR ''?''), kmalloc_kbuf = True\<rparr>"]
  by (simp add: censor_loop.simps)

end
